theory Spec2Isabelle
  imports Complex_Main "HOL-Library.Word" "HOL-Library.Log_Nat"
begin

unbundle bit_operations_syntax

section \<open>Python values and exceptions\<close>

text \<open>
  The node \<open>ElkapodCommServer\<close> of \<open>elkapod_comm_server.py\<close> talks to the Hexapod
  Hardware Controller over SPI.  Python integers are unbounded and are modelled by
  \<^typ>\<open>int\<close>.  The floats that the two sensor polls compute are binary64 values, with
  the rounding and the \<open>OverflowError\<close> of Python's true division.  The angles of a leg
  frame are read as real numbers and the three adjustments of the callback as exact; no
  path of the callback depends on their rounding.  An exception is a value of
  \<open>py_error\<close>; the four protocol exceptions carry the text that \<open>str\<close> returns for them.
  \<open>EncodingPreconditionError\<close> is the error class named in section 7 of the
  specification; \<open>OtherException\<close> stands for every other exception class.
\<close>

datatype py_error =
    IndexError
  | ValueError
  | OverflowError
  | ZeroDivisionError
  | MalformedHexapodInfoFrameError string
  | IncompatibleHexapodProtocolVersionError string
  | OldHexapodProtocolVersionWarning string
  | NewHexapodProtocolVersionWarning string
  | EncodingPreconditionError
  | OtherException string

text \<open>Sequencing of computations that may raise.\<close>

definition bindE :: "py_error + 'a \<Rightarrow> ('a \<Rightarrow> py_error + 'b) \<Rightarrow> py_error + 'b" where
  "bindE m f = (case m of Inl e \<Rightarrow> Inl e | Inr x \<Rightarrow> f x)"

text \<open>
  \<open>a << k\<close> on Python integers: a negative shift count raises \<open>ValueError\<close>, any other
  count shifts without loss.
\<close>

definition py_lshift :: "int \<Rightarrow> int \<Rightarrow> py_error + int" where
  "py_lshift a k = (if k < 0 then Inl ValueError else Inr (push_bit (nat k) a))"

section \<open>Python floats\<close>

text \<open>
  A Python float is an IEEE 754 binary64 value: a finite value (\<open>Finite 0\<close> is \<open>0.0\<close>),
  the negative zero, an infinity or a NaN.
\<close>

datatype pyfloat = Finite real | NegZero | PosInf | NegInf | NaN

definition pow2 :: "int \<Rightarrow> real" where
  "pow2 e = (if 0 \<le> e then 2 ^ nat e else 1 / 2 ^ nat (- e))"

text \<open>Rounding to the nearest integer, ties to the even one.\<close>

definition round_half_even :: "real \<Rightarrow> int" where
  "round_half_even x =
     (let f = \<lfloor>x\<rfloor>; d = x - real_of_int f
      in if d < 1 / 2 then f else if 1 / 2 < d then f + 1 else if even f then f else f + 1)"

text \<open>The exponent \<open>e\<close> with \<open>2 ^ e \<le> x < 2 ^ (e + 1)\<close>, for a positive \<open>x\<close>.\<close>

definition binade :: "real \<Rightarrow> int" where
  "binade x =
     (if 1 \<le> x then bitlen \<lfloor>x\<rfloor> - 1
      else (let k = bitlen \<lfloor>1 / x\<rfloor> - 1 in if 1 / x = 2 ^ nat k then - k else - (k + 1)))"

text \<open>
  Rounding a real number to 53 significant bits, to nearest and ties to even, with the
  exponent not below that of the subnormal numbers.  The result is beyond the largest
  float exactly when it reaches \<open>2 ^ 1024\<close>.
\<close>

definition round_binary64 :: "real \<Rightarrow> real" where
  "round_binary64 x =
     (if x = 0 then 0
      else (let ulp = pow2 (max (binade \<bar>x\<bar>) (- 1022) - 52)
            in sgn x * real_of_int (round_half_even (\<bar>x\<bar> / ulp)) * ulp))"

text \<open>
  The float for an exact result \<open>x\<close>; \<open>negative\<close> is the sign that a zero result takes.
\<close>

definition float_of_real :: "bool \<Rightarrow> real \<Rightarrow> pyfloat" where
  "float_of_real negative x =
     (let r = round_binary64 x
      in if 2 ^ 1024 \<le> r then PosInf
         else if r \<le> - (2 ^ 1024) then NegInf
         else if r = 0 then (if negative then NegZero else Finite 0)
         else Finite r)"

text \<open>A decimal literal without a sign, such as \<open>3.3\<close>.\<close>

definition float_literal :: "real \<Rightarrow> pyfloat" where
  "float_literal x = float_of_real False x"

text \<open>
  \<open>a / b\<close> on Python integers: \<open>ZeroDivisionError\<close> on a zero divisor, \<open>OverflowError\<close>
  when the correctly rounded quotient is too large for a float, and the correctly rounded
  quotient otherwise.
\<close>

definition py_truediv :: "int \<Rightarrow> int \<Rightarrow> py_error + pyfloat" where
  "py_truediv a b =
     (if b = 0 then Inl ZeroDivisionError
      else (case float_of_real ((a < 0) \<noteq> (b < 0)) (real_of_int a / real_of_int b) of
              PosInf \<Rightarrow> Inl OverflowError
            | NegInf \<Rightarrow> Inl OverflowError
            | q \<Rightarrow> Inr q))"

definition sign_bit :: "pyfloat \<Rightarrow> bool" where
  "sign_bit x = (case x of Finite r \<Rightarrow> r < 0 | NegZero \<Rightarrow> True | PosInf \<Rightarrow> False
                 | NegInf \<Rightarrow> True | NaN \<Rightarrow> False)"

definition float_value :: "pyfloat \<Rightarrow> real" where
  "float_value x = (case x of Finite r \<Rightarrow> r | _ \<Rightarrow> 0)"

definition is_inf :: "pyfloat \<Rightarrow> bool" where
  "is_inf x = (x = PosInf \<or> x = NegInf)"

definition is_zero :: "pyfloat \<Rightarrow> bool" where
  "is_zero x = (x = Finite 0 \<or> x = NegZero)"

text \<open>\<open>x * y\<close> on floats: never an exception; an overflow gives an infinity.\<close>

definition py_float_mul :: "pyfloat \<Rightarrow> pyfloat \<Rightarrow> pyfloat" where
  "py_float_mul x y =
     (if x = NaN \<or> y = NaN then NaN
      else if (is_inf x \<and> is_zero y) \<or> (is_zero x \<and> is_inf y) then NaN
      else if is_inf x \<or> is_inf y then (if sign_bit x \<noteq> sign_bit y then NegInf else PosInf)
      else float_of_real (sign_bit x \<noteq> sign_bit y) (float_value x * float_value y))"

section \<open>Bytes to value\<close>

text \<open>
  \<^verbatim>\<open>
  def _convert_bytes_to_value(datas: list) -> float:
      value = 0
      for i, data in enumerate(datas):
          value |= data << (len(datas) - i - 1) * 8
      return value
  \<close>
  \<open>convert_loop datas i rest value\<close> is the loop at index \<open>i\<close>, with \<open>rest\<close> the elements
  still to be enumerated and \<open>value\<close> the accumulator.
\<close>

fun convert_loop :: "int list \<Rightarrow> nat \<Rightarrow> int list \<Rightarrow> int \<Rightarrow> py_error + int" where
  "convert_loop datas i [] val = Inr val"
| "convert_loop datas i (data # rest) val =
     bindE (py_lshift data ((int (length datas) - int i - 1) * 8))
       (\<lambda>shifted. convert_loop datas (i + 1) rest (val OR shifted))"

definition convert_bytes_to_value :: "int list \<Rightarrow> py_error + int" where
  "convert_bytes_to_value datas = convert_loop datas 0 datas 0"

text \<open>
  The big-endian unsigned value in the words of the specification:
  the sum over \<open>i\<close> of \<open>b[i] << (8 * (n - 1 - i))\<close>, and the same with powers of 256.
\<close>

definition be_value_shift :: "int list \<Rightarrow> int" where
  "be_value_shift b = (\<Sum>i<length b. push_bit (8 * (length b - 1 - i)) (b ! i))"

definition be_value :: "int list \<Rightarrow> int" where
  "be_value b = (\<Sum>i<length b. b ! i * 256 ^ (length b - 1 - i))"

definition is_byte :: "int \<Rightarrow> bool" where
  "is_byte x = (0 \<le> x \<and> x \<le> 255)"

section \<open>The node and the bus\<close>

text \<open>
  The module \<open>hexapod_protocol\<close> is not among the sources.  What the node imports from
  it is a parameter of the functions below, under the imported name: the tables
  \<open>FRAME_LENGTHS_TRANSMIT\<close> and \<open>FRAME_LENGTHS_RECEIVE\<close>, the enumeration value
  \<open>FrameType.X.value\<close> (parameter \<open>frame_value\<close>), \<open>INFO_FRAME_LIST\<close>, the version text,
  and the functions \<open>split_to_integer_and_float_parts\<close>, \<open>one_leg_frame\<close> and
  \<open>check_info_frame\<close>, each of which may raise.
\<close>

datatype FrameType = INFO | ADC | TEMPERATURE | ONE_LEG

text \<open>
  The SPI driver is seen through the sequence of its calls: \<open>writebytes2\<close> with the
  list written, \<open>readbytes\<close> with the number of bytes asked for.
\<close>

datatype spi_event = Write "int list" | Read int

datatype log_level = LogInfo | LogWarning | LogError | LogFatal

record Temperature =
  stamp :: nat
  temperature :: pyfloat
  variance :: pyfloat

datatype stdout_line = VoltageLine pyfloat

record node =
  spi :: "spi_event list"
  logger :: "(log_level \<times> string) list"
  mcu_temperature_publisher :: "Temperature list"
  stdout :: "stdout_line list"

definition writebytes2 :: "int list \<Rightarrow> node \<Rightarrow> node" where
  "writebytes2 bs s = s\<lparr>spi := spi s @ [Write bs]\<rparr>"

text \<open>\<open>readbytes n\<close>, where \<open>resp\<close> is the list the driver returns for this read.\<close>

definition readbytes :: "int \<Rightarrow> int list \<Rightarrow> node \<Rightarrow> int list \<times> node" where
  "readbytes n resp s = (resp, s\<lparr>spi := spi s @ [Read n]\<rparr>)"

definition log_msg :: "log_level \<Rightarrow> string \<Rightarrow> node \<Rightarrow> node" where
  "log_msg lvl txt s = s\<lparr>logger := logger s @ [(lvl, txt)]\<rparr>"

text \<open>
  \<^verbatim>\<open>
  def _send_data(self, nbytes: int, bytes_to_be_send: list):
      self._spi.writebytes2([nbytes])
      self._spi.writebytes2(bytes_to_be_send)
  \<close>
\<close>

definition send_data :: "int \<Rightarrow> int list \<Rightarrow> node \<Rightarrow> node" where
  "send_data nbytes bytes_to_be_send s = writebytes2 bytes_to_be_send (writebytes2 [nbytes] s)"

section \<open>The leg frame callback\<close>

record leg_frame =
  leg_nb :: int
  servo_op_codes :: "int list"
  servo_angles :: "real list"

text \<open>
  \<open>xs[i] op= v\<close> on a Python list: \<open>IndexError\<close> when \<open>i\<close> is not an index of the list.
\<close>

definition aug_assign :: "nat \<Rightarrow> (real \<Rightarrow> real) \<Rightarrow> real list \<Rightarrow> py_error + real list" where
  "aug_assign i f xs = (if i < length xs then Inr (xs[i := f (xs ! i)]) else Inl IndexError)"

text \<open>
  \<^verbatim>\<open>
  angles[0] += 90
  angles[1] += 90
  angles[2] *= -1
  \<close>
\<close>

definition to_servo_ranges :: "real list \<Rightarrow> py_error + real list" where
  "to_servo_ranges angles =
     bindE (aug_assign 0 (\<lambda>a. a + 90) angles) (\<lambda>angles1.
     bindE (aug_assign 1 (\<lambda>a. a + 90) angles1) (\<lambda>angles2.
     aug_assign 2 (\<lambda>a. a * (- 1)) angles2))"

text \<open>
  The loop over the servo angles, with the two result lists as accumulators.
\<close>

fun split_angles ::
  "(real \<Rightarrow> py_error + int \<times> int) \<Rightarrow> real list \<Rightarrow> int list \<Rightarrow> int list
     \<Rightarrow> py_error + int list \<times> int list" where
  "split_angles split [] angle_int_parts angle_float_parts =
     Inr (angle_int_parts, angle_float_parts)"
| "split_angles split (angle # angles) angle_int_parts angle_float_parts =
     bindE (split angle) (\<lambda>(int_part, float_part).
       split_angles split angles (angle_int_parts @ [int_part]) (angle_float_parts @ [float_part]))"

text \<open>Lines 59 to 75 of the callback: everything before the bus is touched.\<close>

definition encode_leg_frame ::
  "(real \<Rightarrow> py_error + int \<times> int)
     \<Rightarrow> (int \<Rightarrow> int list \<Rightarrow> int list \<Rightarrow> int list \<Rightarrow> py_error + int list)
     \<Rightarrow> leg_frame \<Rightarrow> py_error + int list" where
  "encode_leg_frame split one_leg_frame frame =
     bindE (to_servo_ranges (servo_angles frame)) (\<lambda>angles.
     bindE (split_angles split angles [] []) (\<lambda>(angle_int_parts, angle_float_parts).
     one_leg_frame (leg_nb frame) (servo_op_codes frame) angle_int_parts angle_float_parts))"

text \<open>
  One turn of the loop over \<open>msg.leg_frames\<close>.  The result is the exception that leaves
  the turn, if any, and the node afterwards.
\<close>

definition leg_frame_body ::
  "(real \<Rightarrow> py_error + int \<times> int)
     \<Rightarrow> (int \<Rightarrow> int list \<Rightarrow> int list \<Rightarrow> int list \<Rightarrow> py_error + int list)
     \<Rightarrow> (FrameType \<Rightarrow> int) \<Rightarrow> leg_frame \<Rightarrow> node \<Rightarrow> py_error option \<times> node" where
  "leg_frame_body split one_leg_frame FRAME_LENGTHS_TRANSMIT frame s =
     (case encode_leg_frame split one_leg_frame frame of
        Inl e \<Rightarrow> (Some e, s)
      | Inr message2 \<Rightarrow> (None, send_data (FRAME_LENGTHS_TRANSMIT ONE_LEG) message2 s))"

fun leg_frame_callback ::
  "(real \<Rightarrow> py_error + int \<times> int)
     \<Rightarrow> (int \<Rightarrow> int list \<Rightarrow> int list \<Rightarrow> int list \<Rightarrow> py_error + int list)
     \<Rightarrow> (FrameType \<Rightarrow> int) \<Rightarrow> leg_frame list \<Rightarrow> node \<Rightarrow> py_error option \<times> node" where
  "leg_frame_callback split one_leg_frame FRAME_LENGTHS_TRANSMIT [] s = (None, s)"
| "leg_frame_callback split one_leg_frame FRAME_LENGTHS_TRANSMIT (frame # leg_frames) s =
     (case leg_frame_body split one_leg_frame FRAME_LENGTHS_TRANSMIT frame s of
        (Some e, s') \<Rightarrow> (Some e, s')
      | (None, s') \<Rightarrow> leg_frame_callback split one_leg_frame FRAME_LENGTHS_TRANSMIT leg_frames s')"

section \<open>Polling the controller\<close>

text \<open>
  \<^verbatim>\<open>
  def get_hhc_info(self):
      self._send_data(FRAME_LENGTHS_TRANSMIT[FrameType.INFO], INFO_FRAME_LIST)
      data = self._spi.readbytes(FRAME_LENGTHS_RECEIVE[FrameType.INFO])
      try:
          check_info_frame(data)
          self.get_logger().info(f"Connection ... version -> {HexapodProtocolVersion}")
      except (IncompatibleHexapodProtocolVersionError, MalformedHexapodInfoFrameError) as e:
          self.get_logger().error(str(e))
      except (OldHexapodProtocolVersionWarning, NewHexapodProtocolVersionWarning) as w:
          self.get_logger().warning(str(w))
  \<close>
  The four exception classes are taken to be unrelated classes, as their names say.
\<close>

definition stable_text :: "string \<Rightarrow> string" where
  "stable_text HexapodProtocolVersion =
     ''Connection with Hardware Controller stable, compatible Hexapod Protocol version -> ''
       @ HexapodProtocolVersion"

definition get_hhc_info ::
  "(FrameType \<Rightarrow> int) \<Rightarrow> (FrameType \<Rightarrow> int) \<Rightarrow> int list \<Rightarrow> string
     \<Rightarrow> (int list \<Rightarrow> py_error + unit) \<Rightarrow> int list \<Rightarrow> node \<Rightarrow> py_error option \<times> node" where
  "get_hhc_info FRAME_LENGTHS_TRANSMIT FRAME_LENGTHS_RECEIVE INFO_FRAME_LIST HexapodProtocolVersion
       check_info_frame resp s =
     (let s1 = send_data (FRAME_LENGTHS_TRANSMIT INFO) INFO_FRAME_LIST s;
          (data, s2) = readbytes (FRAME_LENGTHS_RECEIVE INFO) resp s1
      in case check_info_frame data of
           Inr _ \<Rightarrow> (None, log_msg LogInfo (stable_text HexapodProtocolVersion) s2)
         | Inl (IncompatibleHexapodProtocolVersionError txt) \<Rightarrow> (None, log_msg LogError txt s2)
         | Inl (MalformedHexapodInfoFrameError txt) \<Rightarrow> (None, log_msg LogError txt s2)
         | Inl (OldHexapodProtocolVersionWarning txt) \<Rightarrow> (None, log_msg LogWarning txt s2)
         | Inl (NewHexapodProtocolVersionWarning txt) \<Rightarrow> (None, log_msg LogWarning txt s2)
         | Inl e \<Rightarrow> (Some e, s2))"

text \<open>
  \<^verbatim>\<open>
  def get_adc_info(self):
      self._send_data(FRAME_LENGTHS_TRANSMIT[FrameType.ADC],
                      [FRAME_LENGTHS_TRANSMIT[FrameType.ADC], FrameType.ADC.value])
      data = self._spi.readbytes(FRAME_LENGTHS_RECEIVE[FrameType.ADC])
      raw_voltage = self._convert_bytes_to_value(data[3:])
      voltage = (raw_voltage / 4096)*3.3
      print(f"Voltage: {voltage} V")
  \<close>
\<close>

definition get_adc_info ::
  "(FrameType \<Rightarrow> int) \<Rightarrow> (FrameType \<Rightarrow> int) \<Rightarrow> (FrameType \<Rightarrow> int)
     \<Rightarrow> int list \<Rightarrow> node \<Rightarrow> py_error option \<times> node" where
  "get_adc_info FRAME_LENGTHS_TRANSMIT FRAME_LENGTHS_RECEIVE frame_value resp s =
     (let s1 = send_data (FRAME_LENGTHS_TRANSMIT ADC)
                 [FRAME_LENGTHS_TRANSMIT ADC, frame_value ADC] s;
          (data, s2) = readbytes (FRAME_LENGTHS_RECEIVE ADC) resp s1
      in case convert_bytes_to_value (drop 3 data) of
           Inl e \<Rightarrow> (Some e, s2)
         | Inr raw_voltage \<Rightarrow>
             (case py_truediv raw_voltage 4096 of
                Inl e \<Rightarrow> (Some e, s2)
              | Inr ratio \<Rightarrow>
                  (let voltage = py_float_mul ratio (float_literal 3.3)
                   in (None, s2\<lparr>stdout := stdout s2 @ [VoltageLine voltage]\<rparr>))))"

text \<open>
  \<^verbatim>\<open>
  def get_temperature_info(self):
      self._send_data(FRAME_LENGTHS_TRANSMIT[FrameType.TEMPERATURE],
                      [FRAME_LENGTHS_TRANSMIT[FrameType.TEMPERATURE], FrameType.TEMPERATURE.value])
      data = self._spi.readbytes(FRAME_LENGTHS_RECEIVE[FrameType.TEMPERATURE])
      temperature = self._convert_bytes_to_value(data[2:]) / 1000
      temperature_msg = Temperature()
      temperature_msg.header.stamp = self.get_clock().now().to_msg()
      temperature_msg.temperature = temperature
      temperature_msg.variance = 0.0
      self._mcu_temperature_publisher.publish(temperature_msg)
  \<close>
  \<open>now\<close> is the reading of the node's clock.  The division raises before the message
  is built, so that an \<open>OverflowError\<close> leaves nothing published.
\<close>

definition get_temperature_info ::
  "(FrameType \<Rightarrow> int) \<Rightarrow> (FrameType \<Rightarrow> int) \<Rightarrow> (FrameType \<Rightarrow> int)
     \<Rightarrow> nat \<Rightarrow> int list \<Rightarrow> node \<Rightarrow> py_error option \<times> node" where
  "get_temperature_info FRAME_LENGTHS_TRANSMIT FRAME_LENGTHS_RECEIVE frame_value now resp s =
     (let s1 = send_data (FRAME_LENGTHS_TRANSMIT TEMPERATURE)
                 [FRAME_LENGTHS_TRANSMIT TEMPERATURE, frame_value TEMPERATURE] s;
          (data, s2) = readbytes (FRAME_LENGTHS_RECEIVE TEMPERATURE) resp s1
      in case convert_bytes_to_value (drop 2 data) of
           Inl e \<Rightarrow> (Some e, s2)
         | Inr raw \<Rightarrow>
             (case py_truediv raw 1000 of
                Inl e \<Rightarrow> (Some e, s2)
              | Inr celsius \<Rightarrow>
                  (let temperature_msg =
                         \<lparr>stamp = now, temperature = celsius, variance = float_literal 0\<rparr>
                   in (None, s2\<lparr>mcu_temperature_publisher :=
                                    mcu_temperature_publisher s2 @ [temperature_msg]\<rparr>))))"

section \<open>The absent encoder\<close>

text \<open>
  Modelled from the spec: \<open>split_to_integer_and_float_parts\<close> of the absent module
  \<open>hexapod_protocol\<close> (FixedPointAngleCodec, sections 4.3 and 7).  An angle out of the
  representable range is rejected with \<open>EncodingPreconditionError\<close>; the specification
  does not give the range, which is the parameter \<open>representable\<close>.  Otherwise the integer
  part is the angle truncated toward zero, and the fractional byte is
  \<open>round(|angle - integer_part| * 256)\<close> clamped to 0..255.
\<close>

definition spec_split :: "(real \<Rightarrow> bool) \<Rightarrow> real \<Rightarrow> py_error + int \<times> int" where
  "spec_split representable angle =
     (if \<not> representable angle then Inl EncodingPreconditionError
      else (let integer_part = (if 0 \<le> angle then \<lfloor>angle\<rfloor> else \<lceil>angle\<rceil>);
                fractional_byte = min 255 (max 0 (round (\<bar>angle - of_int integer_part\<bar> * 256)))
            in Inr (integer_part, fractional_byte)))"

text \<open>
  Modelled from the spec: \<open>one_leg_frame\<close> of the absent module \<open>hexapod_protocol\<close>
  (CommandEncoder, sections 4.4 and 7).  The three sequences must have the per-leg servo
  count, fixed at 3; otherwise the command is rejected with \<open>EncodingPreconditionError\<close>.
  The payload is the leg id, then the operation codes, then the integer parts, then the
  fractional parts.
\<close>

definition spec_one_leg_frame ::
  "int \<Rightarrow> int list \<Rightarrow> int list \<Rightarrow> int list \<Rightarrow> py_error + int list" where
  "spec_one_leg_frame leg_id op_codes angle_int_parts angle_float_parts =
     (if length op_codes = 3 \<and> length angle_int_parts = 3 \<and> length angle_float_parts = 3
      then Inr (leg_id # op_codes @ angle_int_parts @ angle_float_parts)
      else Inl EncodingPreconditionError)"

text \<open>
  Modelled from the spec: the table \<open>FRAME_LENGTHS_TRANSMIT\<close> of the absent module
  \<open>hexapod_protocol\<close> (section 6).  The transmit length of a frame kind is the byte count
  of its transmit payload: the static request sequence for Info, the two bytes
  \<open>[payload length, frame-kind tag]\<close> for Adc and Temperature, and
  \<open>1 + 3 + 3 + 3\<close> bytes for OneLeg.
\<close>

definition spec_FRAME_LENGTHS_TRANSMIT :: "int list \<Rightarrow> FrameType \<Rightarrow> int" where
  "spec_FRAME_LENGTHS_TRANSMIT INFO_FRAME_LIST kind =
     (case kind of
        INFO \<Rightarrow> int (length INFO_FRAME_LIST)
      | ADC \<Rightarrow> 2
      | TEMPERATURE \<Rightarrow> 2
      | ONE_LEG \<Rightarrow> 10)"

text \<open>The node before anything has happened.\<close>

definition fresh_node :: node where
  "fresh_node = \<lparr>spi = [], logger = [], mcu_temperature_publisher = [], stdout = []\<rparr>"

section \<open>Auxiliary notions for the statements\<close>

text \<open>
  The outcomes of \<open>check_info_frame\<close> that the protocol knows: it returns, or it raises one
  of the four protocol exceptions.
\<close>

definition is_protocol_outcome :: "py_error + unit \<Rightarrow> bool" where
  "is_protocol_outcome r =
     (case r of
        Inr _ \<Rightarrow> True
      | Inl (MalformedHexapodInfoFrameError _) \<Rightarrow> True
      | Inl (IncompatibleHexapodProtocolVersionError _) \<Rightarrow> True
      | Inl (OldHexapodProtocolVersionWarning _) \<Rightarrow> True
      | Inl (NewHexapodProtocolVersionWarning _) \<Rightarrow> True
      | Inl _ \<Rightarrow> False)"

text \<open>
  The node after one request and response on the bus: the length announcement, the
  payload, and one read.
\<close>

definition after_exchange :: "int \<Rightarrow> int list \<Rightarrow> int \<Rightarrow> node \<Rightarrow> node" where
  "after_exchange n payload m s = s\<lparr>spi := spi s @ [Write [n], Write payload, Read m]\<rparr>"

section \<open>Properties of the byte conversion\<close>

lemma or_byte_eq_add:
  assumes "is_byte d"
  shows "push_bit 8 w OR d = w * 256 + d"
proof -
  have d: "take_bit 8 d = d"
    using assms by (simp add: is_byte_def take_bit_int_eq_self)
  have "push_bit 8 w AND take_bit 8 d = 0"
    by (rule bit_eqI) (auto simp: bit_simps)
  then have "push_bit 8 w AND d = 0"
    by (simp add: d)
  then have "push_bit 8 w + d = push_bit 8 w OR d"
    by (rule disjunctive_add_eq_or)
  then show ?thesis
    by (simp add: push_bit_eq_mult)
qed

text \<open>At index \<open>i\<close> of a list of length \<open>m\<close> the shift count is not negative.\<close>

lemma py_lshift_at_index:
  assumes "i + Suc n = m"
  shows "py_lshift d ((int m - int i - 1) * 8) = Inr (push_bit (8 * n) d)"
proof -
  have "(int m - int i - 1) * 8 = int (8 * n)"
    using assms by auto
  then show ?thesis
    by (simp only: py_lshift_def nat_int) simp
qed

text \<open>
  The loop invariant: with \<open>rest\<close> still to come, the accumulator is a multiple of
  \<open>256 ^ length rest\<close>, and the loop ends with the Horner value of the digits.
\<close>

lemma convert_loop_horner:
  assumes "i + length rest = length datas" and "list_all is_byte rest"
  shows "convert_loop datas i rest (push_bit (8 * length rest) w)
           = Inr (foldl (\<lambda>v b. v * 256 + b) w rest)"
  using assms
proof (induction rest arbitrary: i w)
  case Nil
  then show ?case by simp
next
  case (Cons d r)
  have amt: "py_lshift d ((int (length datas) - int i - 1) * 8) = Inr (push_bit (8 * length r) d)"
    using Cons.prems(1) by (intro py_lshift_at_index) simp
  have d: "is_byte d" and r: "list_all is_byte r"
    using Cons.prems(2) by simp_all
  have "push_bit (8 * length (d # r)) w OR push_bit (8 * length r) d
          = push_bit (8 * length r) (push_bit 8 w OR d)"
    by (simp add: add.commute)
  also have "\<dots> = push_bit (8 * length r) (w * 256 + d)"
    by (simp only: or_byte_eq_add [OF d])
  finally have acc: "push_bit (8 * length (d # r)) w OR push_bit (8 * length r) d
          = push_bit (8 * length r) (w * 256 + d)" .
  have "convert_loop datas (i + 1) r (push_bit (8 * length r) (w * 256 + d))
          = Inr (foldl (\<lambda>v b. v * 256 + b) (w * 256 + d) r)"
    using Cons.prems(1) r by (intro Cons.IH) simp_all
  then show ?case
    by (simp only: convert_loop.simps amt bindE_def sum.case acc foldl_Cons)
qed

lemma be_value_Cons: "be_value (d # r) = d * 256 ^ length r + be_value r"
  by (simp add: be_value_def sum.lessThan_Suc_shift del: sum.lessThan_Suc)

lemma horner_be_value:
  "foldl (\<lambda>v b. v * 256 + b) w bs = w * 256 ^ length bs + be_value bs"
proof (induction bs arbitrary: w)
  case Nil
  show ?case by (simp add: be_value_def)
next
  case (Cons d r)
  show ?case
    by (simp add: Cons.IH be_value_Cons) (simp add: algebra_simps)
qed

lemma be_value_shift_eq: "be_value_shift b = be_value b"
  by (simp add: be_value_shift_def be_value_def push_bit_eq_mult power_mult)

lemma convert_bytes_be_value:
  assumes "list_all is_byte b"
  shows "convert_bytes_to_value b = Inr (be_value b)"
  using convert_loop_horner [of 0 b b 0] assms
  by (simp add: convert_bytes_to_value_def horner_be_value)

lemma be_value_bounds:
  assumes "list_all is_byte b"
  shows "0 \<le> be_value b \<and> be_value b < 256 ^ length b"
  using assms
proof (induction b)
  case Nil
  show ?case by (simp add: be_value_def)
next
  case (Cons d r)
  then have d: "0 \<le> d" "d \<le> 255" and IH: "0 \<le> be_value r" "be_value r < 256 ^ length r"
    by (simp_all add: is_byte_def)
  define P :: int where "P = 256 ^ length r"
  have "d * P \<le> 255 * P" and "0 \<le> d * P"
    using d by (simp_all add: P_def mult_right_mono)
  moreover have "be_value (d # r) = d * P + be_value r"
    by (simp add: be_value_Cons P_def)
  moreover have "(256::int) ^ length (d # r) = 256 * P"
    by (simp add: P_def)
  moreover have "be_value r < P"
    using IH by (simp add: P_def)
  ultimately show ?case
    using IH(1) by linarith
qed

text \<open>The loop never raises, whatever integers the list holds.\<close>

lemma convert_loop_total:
  assumes "i + length rest = length datas"
  shows "\<exists>v. convert_loop datas i rest val = Inr v"
  using assms
proof (induction rest arbitrary: i val)
  case Nil
  show ?case by simp
next
  case (Cons d r)
  have amt: "py_lshift d ((int (length datas) - int i - 1) * 8) = Inr (push_bit (8 * length r) d)"
    using Cons.prems by (intro py_lshift_at_index) simp
  have "\<exists>v. convert_loop datas (i + 1) r (val OR push_bit (8 * length r) d) = Inr v"
    using Cons.prems by (intro Cons.IH) simp
  then show ?case
    by (simp only: convert_loop.simps amt bindE_def sum.case)
qed

lemma convert_bytes_total: "\<exists>v. convert_bytes_to_value datas = Inr v"
  unfolding convert_bytes_to_value_def by (rule convert_loop_total) simp

text \<open>
  Claim C2.  For every byte sequence \<open>b\<close> of length \<open>n\<close> with each element in 0..255,
  the conversion returns the big-endian unsigned value: the sum over \<open>i\<close> of \<open>b[i]\<close>
  shifted left by \<open>8 * (n - 1 - i)\<close>, which is the sum of \<open>b[i] * 256 ^ (n - 1 - i)\<close>.
\<close>

theorem convert_bytes_to_value_big_endian:
  assumes "\<forall>x \<in> set b. 0 \<le> x \<and> x \<le> 255"
  shows "convert_bytes_to_value b
           = Inr (\<Sum>i<length b. push_bit (8 * (length b - 1 - i)) (b ! i))
         \<and> (\<Sum>i<length b. push_bit (8 * (length b - 1 - i)) (b ! i))
           = (\<Sum>i<length b. b ! i * 256 ^ (length b - 1 - i))
         \<and> convert_bytes_to_value b = Inr (be_value b)"
proof -
  have "list_all is_byte b"
    using assms by (simp add: list_all_iff is_byte_def)
  then have "convert_bytes_to_value b = Inr (be_value b)"
    by (rule convert_bytes_be_value)
  moreover have "be_value_shift b = be_value b"
    by (rule be_value_shift_eq)
  ultimately show ?thesis
    by (simp add: be_value_shift_def be_value_def)
qed

theorem convert_bytes_to_value_big_endian_witness:
  "convert_bytes_to_value [1, 2, 3] = Inr 66051 \<and> be_value [1, 2, 3] = 66051"
proof -
  have h: "\<forall>x \<in> set [1, 2, 3 :: int]. 0 \<le> x \<and> x \<le> 255"
    by simp
  have v: "be_value [1, 2, 3] = 66051"
    by (simp add: be_value_def lessThan_Suc numeral_3_eq_3)
  show ?thesis
    using convert_bytes_to_value_big_endian [OF h] v by simp
qed

text \<open>
  Claim C10.  For every byte sequence of length \<open>n\<close> with each element in 0..255, the
  conversion returns an integer \<open>v\<close> with \<open>0 \<le> v < 256 ^ n\<close>: an exact integer, never
  negative, never rounded.
\<close>

theorem convert_bytes_to_value_range:
  assumes "\<forall>x \<in> set b. 0 \<le> x \<and> x \<le> 255"
  shows "\<exists>v. convert_bytes_to_value b = Inr v \<and> 0 \<le> v \<and> v < 256 ^ length b"
proof -
  have "list_all is_byte b"
    using assms by (simp add: list_all_iff is_byte_def)
  then show ?thesis
    using convert_bytes_be_value [of b] be_value_bounds [of b] by simp
qed

theorem convert_bytes_to_value_range_witness:
  "\<exists>v. convert_bytes_to_value [255, 255] = Inr v \<and> 0 \<le> v \<and> v < 256 ^ length [255, 255 :: int]"
proof -
  have h: "\<forall>x \<in> set [255, 255 :: int]. 0 \<le> x \<and> x \<le> 255"
    by simp
  show ?thesis
    by (rule convert_bytes_to_value_range [OF h])
qed

text \<open>
  Claim C9.  The conversion is total on all lists, the empty list included: on the
  empty list it raises nothing and returns 0.
\<close>

theorem convert_bytes_to_value_empty:
  "convert_bytes_to_value [] = Inr 0 \<and> (\<forall>datas. \<exists>v. convert_bytes_to_value datas = Inr v)"
  by (simp add: convert_bytes_total) (simp add: convert_bytes_to_value_def)

text \<open>
  Claim C7, as stated, fails: the conversion does not fail with \<open>OverflowError\<close> on a
  sequence longer than an integer type can hold.  Nine bytes exceed every 64-bit type
  (and the 53 bits of the declared \<open>float\<close>), and the value \<open>2 ^ 64\<close> is returned.
\<close>

theorem convert_bytes_to_value_nine_bytes:
  "convert_bytes_to_value [1, 0, 0, 0, 0, 0, 0, 0, 0] = Inr 18446744073709551616
   \<and> convert_bytes_to_value [1, 0, 0, 0, 0, 0, 0, 0, 0] \<noteq> Inl OverflowError"
  by (simp add: convert_bytes_to_value_def py_lshift_def bindE_def)

text \<open>
  Claim C7, amended.  The conversion is defined for every sequence of any length and
  never fails with \<open>OverflowError\<close>: Python integers are unbounded.
\<close>

theorem convert_bytes_to_value_never_overflows:
  "convert_bytes_to_value datas \<noteq> Inl OverflowError
   \<and> (\<exists>v. convert_bytes_to_value datas = Inr v)"
  using convert_bytes_total [of datas] by auto

section \<open>Properties of the leg frame callback\<close>



lemma to_servo_ranges_short:
  assumes "length angles < 3"
  shows "to_servo_ranges angles = Inl IndexError"
  using assms by (auto simp: to_servo_ranges_def aug_assign_def bindE_def)

lemma to_servo_ranges_length:
  assumes "to_servo_ranges angles = Inr sa"
  shows "length sa = length angles \<and> 3 \<le> length angles"
  using assms
  by (auto simp: to_servo_ranges_def aug_assign_def bindE_def split: if_splits)

lemma split_angles_length:
  assumes "split_angles split angles ints fracs = Inr (ints', fracs')"
  shows "length ints' = length ints + length angles \<and> length fracs' = length fracs + length angles"
  using assms
proof (induction angles arbitrary: ints fracs)
  case Nil
  then show ?case by simp
next
  case (Cons a as)
  then obtain ip fp where a: "split a = Inr (ip, fp)"
    and rest: "split_angles split as (ints @ [ip]) (fracs @ [fp]) = Inr (ints', fracs')"
    by (auto simp: bindE_def split: sum.splits)
  from Cons.IH [OF rest] show ?case by simp
qed

lemma split_angles_spec_rejects:
  assumes "\<not> list_all representable angles"
  shows "split_angles (spec_split representable) angles ints fracs = Inl EncodingPreconditionError"
  using assms
proof (induction angles arbitrary: ints fracs)
  case Nil
  then show ?case by simp
next
  case (Cons a as)
  show ?case
  proof (cases "representable a")
    case True
    then obtain ip fp where a: "spec_split representable a = Inr (ip, fp)"
      by (simp add: spec_split_def Let_def)
    have "\<not> list_all representable as"
      using Cons.prems True by simp
    then have "split_angles (spec_split representable) as (ints @ [ip]) (fracs @ [fp])
                 = Inl EncodingPreconditionError"
      by (rule Cons.IH)
    then show ?thesis
      by (simp add: a bindE_def)
  next
    case False
    then show ?thesis
      by (simp add: spec_split_def bindE_def)
  qed
qed

text \<open>What the callback does on its own, whatever the two helpers are.\<close>

lemma leg_frame_body_short:
  assumes "length (servo_angles frame) < 3"
  shows "leg_frame_body split olf flt frame s = (Some IndexError, s)"
  by (simp add: leg_frame_body_def encode_leg_frame_def to_servo_ranges_short [OF assms] bindE_def)

lemma leg_frame_body_raises:
  assumes "encode_leg_frame split olf frame = Inl e"
  shows "leg_frame_body split olf flt frame s = (Some e, s)"
  by (simp add: leg_frame_body_def assms)

lemma leg_frame_body_sends:
  assumes "encode_leg_frame split olf frame = Inr message2"
  shows "leg_frame_body split olf flt frame s =
           (None, s\<lparr>spi := spi s @ [Write [flt ONE_LEG], Write message2]\<rparr>)"
  by (simp add: leg_frame_body_def assms send_data_def writebytes2_def)

lemma encode_spec_length:
  assumes "encode_leg_frame split spec_one_leg_frame frame = Inr message2"
  shows "length message2 = 10"
  using assms
  by (auto simp: encode_leg_frame_def spec_one_leg_frame_def bindE_def
           split: sum.splits prod.splits if_splits)

lemma encode_spec_rejects:
  assumes "length (servo_op_codes frame) \<noteq> length (servo_angles frame)
           \<or> (\<exists>sa. to_servo_ranges (servo_angles frame) = Inr sa \<and> \<not> list_all representable sa)"
  shows "\<exists>e. encode_leg_frame (spec_split representable) spec_one_leg_frame frame = Inl e"
proof (cases "to_servo_ranges (servo_angles frame)")
  case (Inl e)
  then show ?thesis
    by (simp add: encode_leg_frame_def bindE_def)
next
  case (Inr sa)
  note sa = this
  show ?thesis
  proof (cases "list_all representable sa")
    case False
    then show ?thesis
      by (simp add: encode_leg_frame_def sa bindE_def split_angles_spec_rejects)
  next
    case True
    then have mismatch: "length (servo_op_codes frame) \<noteq> length (servo_angles frame)"
      using assms sa by auto
    show ?thesis
    proof (cases "split_angles (spec_split representable) sa [] []")
      case (Inl e)
      then show ?thesis
        by (simp add: encode_leg_frame_def sa bindE_def)
    next
      case (Inr parts)
      obtain ints fracs where parts: "parts = (ints, fracs)"
        by (cases parts)
      have "length ints = length (servo_angles frame)"
        using split_angles_length [OF Inr [unfolded parts]] to_servo_ranges_length [OF sa]
        by simp
      then have "\<not> (length (servo_op_codes frame) = 3 \<and> length ints = 3 \<and> length fracs = 3)"
        using mismatch by auto
      then have "spec_one_leg_frame (leg_nb frame) (servo_op_codes frame) ints fracs
                   = Inl EncodingPreconditionError"
        by (simp only: spec_one_leg_frame_def if_False)
      then show ?thesis
        by (simp add: encode_leg_frame_def sa Inr parts bindE_def)
    qed
  qed
qed

text \<open>
  Claim C6.  A leg command whose operation codes and angles differ in number, or one of
  whose servo angles (the angles as handed to the splitter) is outside the representable
  range, is rejected before anything is written to the bus: the turn of the loop ends
  with an exception and the node, and so the bus, is as it was; the callback ends there.
  The callback encodes the whole frame before it calls \<open>_send_data\<close>, and raises
  \<open>IndexError\<close> itself on fewer than three angles; the other rejections are those of the
  splitter and the frame builder as the specification describes them.
\<close>

theorem leg_command_rejected_before_write:
  assumes "length (servo_op_codes frame) \<noteq> length (servo_angles frame)
           \<or> (\<exists>sa. to_servo_ranges (servo_angles frame) = Inr sa \<and> \<not> list_all representable sa)"
  shows "\<exists>e. leg_frame_body (spec_split representable) spec_one_leg_frame flt frame s = (Some e, s)
            \<and> leg_frame_callback (spec_split representable) spec_one_leg_frame flt
                (frame # leg_frames) s = (Some e, s)"
proof -
  obtain e where "encode_leg_frame (spec_split representable) spec_one_leg_frame frame = Inl e"
    using encode_spec_rejects [OF assms] by blast
  then have "leg_frame_body (spec_split representable) spec_one_leg_frame flt frame s = (Some e, s)"
    by (rule leg_frame_body_raises)
  then show ?thesis
    by simp
qed

theorem leg_command_rejected_before_write_witness:
  "\<exists>e. leg_frame_body (spec_split (\<lambda>a. \<bar>a\<bar> \<le> 180)) spec_one_leg_frame (\<lambda>k. 10)
          \<lparr>leg_nb = 2, servo_op_codes = [1, 2], servo_angles = [10, - 20, 30]\<rparr> fresh_node
        = (Some e, fresh_node)
      \<and> leg_frame_callback (spec_split (\<lambda>a. \<bar>a\<bar> \<le> 180)) spec_one_leg_frame (\<lambda>k. 10)
          [\<lparr>leg_nb = 2, servo_op_codes = [1, 2], servo_angles = [10, - 20, 30]\<rparr>] fresh_node
        = (Some e, fresh_node)"
proof -
  have h: "length (servo_op_codes \<lparr>leg_nb = 2, servo_op_codes = [1, 2], servo_angles = [10, - 20, 30]\<rparr>)
             \<noteq> length (servo_angles \<lparr>leg_nb = 2, servo_op_codes = [1, 2], servo_angles = [10, - 20, 30]\<rparr>)
           \<or> (\<exists>sa. to_servo_ranges (servo_angles \<lparr>leg_nb = 2, servo_op_codes = [1, 2], servo_angles = [10, - 20, 30]\<rparr>) = Inr sa
                 \<and> \<not> list_all (\<lambda>a. \<bar>a\<bar> \<le> 180) sa)"
    by simp
  show ?thesis
    by (rule leg_command_rejected_before_write [OF h])
qed

section \<open>Properties of the polling functions\<close>

lemma send_then_read:
  "readbytes m resp (send_data n payload s) = (resp, after_exchange n payload m s)"
  by (simp add: readbytes_def send_data_def writebytes2_def after_exchange_def)

lemma be_value_23456: "be_value [91, 160] = 23456"
  by (simp add: be_value_def lessThan_Suc numeral_2_eq_2)

lemma be_value_2048: "be_value [8, 0] = 2048"
  by (simp add: be_value_def lessThan_Suc numeral_2_eq_2)

subsection \<open>Rounding and overflow\<close>

lemma round_half_even_bounds:
  assumes "0 \<le> y"
  shows "0 \<le> round_half_even y" and "real_of_int (round_half_even y) \<le> y + 1"
proof -
  have f: "0 \<le> \<lfloor>y\<rfloor>" "real_of_int \<lfloor>y\<rfloor> \<le> y"
    using assms by simp_all
  show "0 \<le> round_half_even y"
    using f(1) by (simp add: round_half_even_def Let_def)
  have "round_half_even y \<le> \<lfloor>y\<rfloor> + 1"
    by (simp add: round_half_even_def Let_def)
  then have "real_of_int (round_half_even y) \<le> real_of_int (\<lfloor>y\<rfloor> + 1)"
    by (simp only: of_int_le_iff)
  then show "real_of_int (round_half_even y) \<le> y + 1"
    using of_int_floor_le [of y] by linarith
qed

lemma pow2_pos: "0 < pow2 e"
  by (simp add: pow2_def)

lemma pow2_le_one:
  assumes "e \<le> 0"
  shows "pow2 e \<le> 1"
proof (cases "e = 0")
  case True
  then show ?thesis by (simp add: pow2_def)
next
  case False
  then have "e < 0" using assms by simp
  moreover have "(1::real) \<le> 2 ^ nat (- e)"
    by (rule one_le_power) simp
  ultimately show ?thesis
    by (simp add: pow2_def)
qed

lemma pow2_shifted_le:
  assumes "0 \<le> k"
  shows "pow2 (k - 52) \<le> 2 ^ nat k"
proof (cases "52 \<le> k")
  case True
  have "(2::real) ^ nat (k - 52) \<le> 2 ^ nat k"
    by (rule power_increasing) simp_all
  then show ?thesis
    using True by (simp add: pow2_def)
next
  case False
  then have "pow2 (k - 52) \<le> 1"
    by (intro pow2_le_one) simp
  moreover have "(1::real) \<le> 2 ^ nat k"
    by (rule one_le_power) simp
  ultimately show ?thesis by linarith
qed

text \<open>The unit in the last place of a positive number is at most the number plus one.\<close>

lemma ulp_le:
  assumes "0 < a"
  shows "pow2 (max (binade a) (- 1022) - 52) \<le> a + 1"
proof (cases "1 \<le> a")
  case True
  define k where "k = bitlen \<lfloor>a\<rfloor> - 1"
  have pos: "0 < \<lfloor>a\<rfloor>"
    using True by simp
  have "2 ^ nat k \<le> \<lfloor>a\<rfloor>"
    unfolding k_def using bitlen_bounds [OF pos] by simp
  then have "real_of_int (2 ^ nat k) \<le> real_of_int \<lfloor>a\<rfloor>"
    by (simp only: of_int_le_iff)
  then have le: "(2::real) ^ nat k \<le> a"
    by (simp add: le_floor_iff)
  have k0: "0 \<le> k"
    unfolding k_def using pos by (simp add: bitlen_alt_def)
  have "binade a = k"
    using True by (simp add: binade_def k_def)
  then have "max (binade a) (- 1022) = k"
    using k0 by simp
  then show ?thesis
    using pow2_shifted_le [OF k0] le by simp
next
  case False
  have "0 \<le> bitlen \<lfloor>1 / a\<rfloor>"
    by (rule bitlen_nonneg)
  moreover have "bitlen \<lfloor>1 / a\<rfloor> \<noteq> 0"
    using False assms by (simp add: bitlen_eq_zero_iff)
  ultimately have "0 \<le> bitlen \<lfloor>1 / a\<rfloor> - 1"
    by simp
  then have "binade a \<le> 0"
    using False by (simp add: binade_def Let_def)
  then have "pow2 (max (binade a) (- 1022) - 52) \<le> 1"
    by (intro pow2_le_one) simp
  then show ?thesis
    using assms by simp
qed

lemma round_binary64_bound: "\<bar>round_binary64 x\<bar> \<le> 2 * \<bar>x\<bar> + 1"
proof (cases "x = 0")
  case True
  then show ?thesis by (simp add: round_binary64_def)
next
  case False
  define a where "a = \<bar>x\<bar>"
  define ulp where "ulp = pow2 (max (binade a) (- 1022) - 52)"
  define m where "m = round_half_even (a / ulp)"
  have a: "0 < a"
    using False by (simp add: a_def)
  have ulp: "0 < ulp" "ulp \<le> a + 1"
    unfolding ulp_def using pow2_pos ulp_le [OF a] by simp_all
  have "0 \<le> a / ulp"
    using a ulp(1) by simp
  then have m: "0 \<le> m" "real_of_int m \<le> a / ulp + 1"
    unfolding m_def by (rule round_half_even_bounds)+
  have "real_of_int m * ulp \<le> (a / ulp + 1) * ulp"
    using m(2) ulp(1) by (intro mult_right_mono) simp_all
  also have "\<dots> = a + ulp"
    using ulp(1) by (simp add: field_simps)
  finally have le: "real_of_int m * ulp \<le> a + ulp" .
  have "round_binary64 x = sgn x * real_of_int m * ulp"
    using False by (simp add: round_binary64_def Let_def m_def ulp_def a_def)
  then have "\<bar>round_binary64 x\<bar> = real_of_int m * ulp"
    using False m(1) ulp(1) by (simp add: abs_mult abs_sgn_eq)
  then show ?thesis
    using le ulp(2) a by (simp add: a_def)
qed

text \<open>From 1 on, rounding loses less than half of the number.\<close>

lemma pow2_shifted_half:
  assumes "0 \<le> k"
  shows "pow2 (k - 52) * 2 \<le> 2 ^ nat k"
proof (cases "52 \<le> k")
  case True
  have "(2::real) ^ Suc (nat (k - 52)) \<le> 2 ^ nat k"
    using True by (intro power_increasing) simp_all
  then show ?thesis
    using True by (simp add: pow2_def)
next
  case False
  define d :: real where "d = 2 ^ nat (52 - k)"
  have "(2::real) ^ 1 \<le> 2 ^ nat (52 - k)"
    using False by (intro power_increasing) simp_all
  then have d: "2 \<le> d"
    by (simp add: d_def)
  then have half: "1 / d \<le> 1 / 2"
    by (simp add: field_simps)
  have "pow2 (k - 52) = 1 / d"
    using False by (simp add: pow2_def d_def)
  moreover have "(1::real) \<le> 2 ^ nat k"
    by (rule one_le_power) simp
  ultimately show ?thesis
    using half by linarith
qed

lemma round_half_even_lower: "y - 1 \<le> real_of_int (round_half_even y)"
proof -
  have "\<lfloor>y\<rfloor> \<le> round_half_even y"
    by (simp add: round_half_even_def Let_def)
  then have "real_of_int \<lfloor>y\<rfloor> \<le> real_of_int (round_half_even y)"
    by (simp only: of_int_le_iff)
  then show ?thesis
    using floor_correct [of y] by linarith
qed

lemma round_binary64_lower:
  assumes "1 \<le> x"
  shows "x / 2 \<le> round_binary64 x"
proof -
  define k where "k = bitlen \<lfloor>x\<rfloor> - 1"
  define ulp where "ulp = pow2 (k - 52)"
  have pos: "0 < \<lfloor>x\<rfloor>"
    using assms by simp
  have "2 ^ nat k \<le> \<lfloor>x\<rfloor>"
    unfolding k_def using bitlen_bounds [OF pos] by simp
  then have "real_of_int (2 ^ nat k) \<le> real_of_int \<lfloor>x\<rfloor>"
    by (simp only: of_int_le_iff)
  then have le: "(2::real) ^ nat k \<le> x"
    by (simp add: le_floor_iff)
  have k0: "0 \<le> k"
    unfolding k_def using pos by (simp add: bitlen_alt_def)
  have ulp: "0 < ulp" "ulp * 2 \<le> x"
    unfolding ulp_def using pow2_pos pow2_shifted_half [OF k0] le by simp_all
  have "max (binade \<bar>x\<bar>) (- 1022) = k"
    using assms k0 by (simp add: binade_def k_def)
  then have rb: "round_binary64 x = real_of_int (round_half_even (x / ulp)) * ulp"
    using assms by (simp add: round_binary64_def Let_def ulp_def)
  have "(x / ulp - 1) * ulp \<le> real_of_int (round_half_even (x / ulp)) * ulp"
    using round_half_even_lower [of "x / ulp"] ulp(1) by (intro mult_right_mono) simp_all
  moreover have "(x / ulp - 1) * ulp = x - ulp"
    using ulp(1) by (simp add: field_simps)
  ultimately have "x - ulp \<le> round_binary64 x"
    by (simp only: rb)
  then show ?thesis
    using ulp(2) by linarith
qed

lemma py_truediv_overflow:
  assumes "0 < b" and "2 ^ 1025 \<le> real_of_int a / real_of_int b"
  shows "py_truediv a b = Inl OverflowError"
proof -
  have "1 \<le> real_of_int a / real_of_int b"
    using assms(2) by simp
  then have "real_of_int a / real_of_int b / 2 \<le> round_binary64 (real_of_int a / real_of_int b)"
    by (rule round_binary64_lower)
  then have "2 ^ 1024 \<le> round_binary64 (real_of_int a / real_of_int b)"
    using assms(2) by simp
  then have "float_of_real ((a < 0) \<noteq> (b < 0)) (real_of_int a / real_of_int b) = PosInf"
    by (simp add: float_of_real_def)
  then show ?thesis
    using assms(1) by (simp add: py_truediv_def)
qed

text \<open>A quotient of non-negative integers is the rounded quotient or an overflow.\<close>

lemma py_truediv_cases:
  assumes "0 \<le> a" and "0 < b"
  shows "py_truediv a b = Inl OverflowError
         \<or> py_truediv a b = Inr (float_of_real False (real_of_int a / real_of_int b))"
  using assms by (simp add: py_truediv_def split: pyfloat.splits)

lemma float_of_real_finite:
  assumes "\<bar>round_binary64 x\<bar> < 2 ^ 1024"
  shows "float_of_real negative x \<noteq> PosInf" and "float_of_real negative x \<noteq> NegInf"
  using assms by (auto simp: float_of_real_def Let_def)

lemma py_truediv_no_overflow:
  assumes "0 \<le> a" and "0 < b"
    and "2 * (real_of_int a / real_of_int b) + 1 < 2 ^ 1024"
  shows "py_truediv a b = Inr (float_of_real False (real_of_int a / real_of_int b))"
proof -
  have "0 \<le> real_of_int a / real_of_int b"
    using assms(1,2) by simp
  then have "\<bar>round_binary64 (real_of_int a / real_of_int b)\<bar>
               \<le> 2 * (real_of_int a / real_of_int b) + 1"
    using round_binary64_bound [of "real_of_int a / real_of_int b"] by simp
  then have "\<bar>round_binary64 (real_of_int a / real_of_int b)\<bar> < 2 ^ 1024"
    using assms(3) by linarith
  then have "float_of_real False (real_of_int a / real_of_int b) \<noteq> PosInf"
    and "float_of_real False (real_of_int a / real_of_int b) \<noteq> NegInf"
    by (rule float_of_real_finite)+
  then show ?thesis
    using assms(1,2) by (simp add: py_truediv_def split: pyfloat.splits)
qed

text \<open>Up to 129 bytes, the quotient by 1000 or by 4096 is within the range of a float.\<close>

lemma be_value_129:
  assumes "list_all is_byte b" and "length b \<le> 129"
  shows "0 \<le> be_value b" and "real_of_int (be_value b) < 2 ^ 1032"
proof -
  have bounds: "0 \<le> be_value b" "be_value b < 256 ^ length b"
    using be_value_bounds [OF assms(1)] by simp_all
  show "0 \<le> be_value b"
    by (rule bounds(1))
  have "(256::int) ^ length b \<le> 256 ^ 129"
    using assms(2) by (intro power_increasing) simp_all
  then have "be_value b < 256 ^ 129"
    using bounds(2) by linarith
  then have "real_of_int (be_value b) < real_of_int (256 ^ 129)"
    by (simp only: of_int_less_iff)
  also have "real_of_int (256 ^ 129) = 2 ^ 1032"
    by simp
  finally show "real_of_int (be_value b) < 2 ^ 1032" .
qed

lemma py_truediv_129:
  assumes "list_all is_byte b" and "length b \<le> 129" and "d = 1000 \<or> d = 4096"
  shows "py_truediv (be_value b) d
           = Inr (float_of_real False (real_of_int (be_value b) / real_of_int d))"
proof -
  have v: "0 \<le> be_value b" "real_of_int (be_value b) < 2 ^ 1032"
    using be_value_129 [OF assms(1,2)] by simp_all
  have d: "0 < d" "1000 \<le> real_of_int d"
    using assms(3) by auto
  have "real_of_int (be_value b) / real_of_int d \<le> real_of_int (be_value b) / 1000"
    using v(1) d by (intro divide_left_mono) simp_all
  also have "\<dots> < 2 ^ 1032 / 1000"
    using v(2) by (simp add: divide_strict_right_mono)
  finally have "2 * (real_of_int (be_value b) / real_of_int d) + 1 < 2 * (2 ^ 1032 / 1000) + 1"
    by simp
  also have "\<dots> < (2::real) ^ 1024"
    by simp
  finally show ?thesis
    by (intro py_truediv_no_overflow v(1) d(1))
qed

lemmas float_eval =
  round_binary64_def binade_def pow2_def round_half_even_def Let_def compute_bitlen
  float_of_real_def float_literal_def py_float_mul_def
  is_inf_def is_zero_def sign_bit_def float_value_def

lemma float_literal_zero: "float_literal 0 = Finite 0"
  by (simp add: float_literal_def float_of_real_def round_binary64_def)

lemma py_truediv_23456: "py_truediv 23456 1000 = Inr (float_literal 23.456)"
proof -
  have "py_truediv 23456 1000 = Inr (float_of_real False (real_of_int 23456 / real_of_int 1000))"
    by (rule py_truediv_no_overflow) simp_all
  then show ?thesis
    by (simp add: float_literal_def)
qed

lemma float_literal_23456: "float_literal 23.456 = Finite (6602277053725147 / 2 ^ 48)"
  by (simp add: float_eval)

lemma py_truediv_2048: "py_truediv 2048 4096 = Inr (Finite (1 / 2))"
  by (simp add: py_truediv_def float_eval)

lemma float_literal_33: "float_literal 3.3 = Finite (3715469692580659 / 2 ^ 50)"
  by (simp add: float_eval)

lemma float_literal_165: "float_literal 1.65 = Finite (3715469692580659 / 2 ^ 51)"
  by (simp add: float_eval)

lemma half_times_33:
  "py_float_mul (Finite (1 / 2)) (Finite (3715469692580659 / 2 ^ 50))
     = Finite (3715469692580659 / 2 ^ 51)"
  by (simp add: float_eval)

lemma voltage_2048: "py_float_mul (Finite (1 / 2)) (float_literal 3.3) = float_literal 1.65"
  by (simp only: float_literal_33 float_literal_165 half_times_33)

lemma float_half: "float_of_real False (2048 / 4096) = Finite (1 / 2)"
  by (simp add: float_eval)

subsection \<open>The temperature poll\<close>

lemma get_temperature_info_bytes:
  assumes "list_all is_byte (drop 2 resp)"
  shows "get_temperature_info flt flr fv now resp s =
           (case py_truediv (be_value (drop 2 resp)) 1000 of
              Inl e \<Rightarrow>
                (Some e, after_exchange (flt TEMPERATURE) [flt TEMPERATURE, fv TEMPERATURE]
                           (flr TEMPERATURE) s)
            | Inr celsius \<Rightarrow>
                (None, (after_exchange (flt TEMPERATURE) [flt TEMPERATURE, fv TEMPERATURE]
                          (flr TEMPERATURE) s)
                   \<lparr>mcu_temperature_publisher := mcu_temperature_publisher s @
                      [\<lparr>stamp = now, temperature = celsius, variance = Finite 0\<rparr>]\<rparr>))"
  using convert_bytes_be_value [OF assms]
  by (simp add: get_temperature_info_def send_then_read after_exchange_def float_literal_zero
           split: sum.splits)

text \<open>
  Claim C4.  For every Temperature response, the reported temperature is the big-endian
  value of the bytes after the 2-byte header, divided by 1000, as Python's true division
  rounds it to a float.  With at most 129 bytes after the header the poll ends without an
  exception and publishes that temperature; for a longer response it either does the same
  or ends with the \<open>OverflowError\<close> of the division and publishes nothing.  A raw count of
  23456 (bytes \<open>0x5B, 0xA0\<close>) is reported as the float \<open>23.456\<close>.
\<close>

theorem get_temperature_info_reports:
  assumes "\<forall>x \<in> set (drop 2 resp). 0 \<le> x \<and> x \<le> 255"
  shows "(length (drop 2 resp) \<le> 129 \<longrightarrow>
            fst (get_temperature_info flt flr fv now resp s) = None
            \<and> mcu_temperature_publisher (snd (get_temperature_info flt flr fv now resp s))
                = mcu_temperature_publisher s @
                    [\<lparr>stamp = now,
                      temperature = float_of_real False (real_of_int (be_value (drop 2 resp)) / 1000),
                      variance = Finite 0\<rparr>])
         \<and> ((fst (get_temperature_info flt flr fv now resp s) = Some OverflowError
              \<and> mcu_temperature_publisher (snd (get_temperature_info flt flr fv now resp s))
                  = mcu_temperature_publisher s)
            \<or> (fst (get_temperature_info flt flr fv now resp s) = None
              \<and> mcu_temperature_publisher (snd (get_temperature_info flt flr fv now resp s))
                  = mcu_temperature_publisher s @
                      [\<lparr>stamp = now,
                        temperature = float_of_real False (real_of_int (be_value (drop 2 resp)) / 1000),
                        variance = Finite 0\<rparr>]))
         \<and> mcu_temperature_publisher (snd (get_temperature_info flt flr fv now [h0, h1, 91, 160] s))
             = mcu_temperature_publisher s @
                 [\<lparr>stamp = now, temperature = float_literal 23.456, variance = Finite 0\<rparr>]"
proof -
  have bytes: "list_all is_byte (drop 2 resp)"
    using assms by (simp add: list_all_iff is_byte_def)
  note general = get_temperature_info_bytes [OF bytes, of flt flr fv now s]
  have short: "py_truediv (be_value (drop 2 resp)) 1000
                 = Inr (float_of_real False (real_of_int (be_value (drop 2 resp)) / 1000))"
    if "length (drop 2 resp) \<le> 129"
    using py_truediv_129 [OF bytes that, of 1000] by simp
  have "0 \<le> be_value (drop 2 resp)"
    using be_value_bounds [OF bytes] by simp
  then have any: "py_truediv (be_value (drop 2 resp)) 1000 = Inl OverflowError
                  \<or> py_truediv (be_value (drop 2 resp)) 1000
                      = Inr (float_of_real False (real_of_int (be_value (drop 2 resp)) / 1000))"
    using py_truediv_cases [of "be_value (drop 2 resp)" 1000] by simp
  have "list_all is_byte (drop 2 [h0, h1, 91, 160])"
    by (simp add: is_byte_def)
  note scenario = get_temperature_info_bytes [OF this, of flt flr fv now s]
  have c1: "length (drop 2 resp) \<le> 129 \<longrightarrow>
            fst (get_temperature_info flt flr fv now resp s) = None
            \<and> mcu_temperature_publisher (snd (get_temperature_info flt flr fv now resp s))
                = mcu_temperature_publisher s @
                    [\<lparr>stamp = now,
                      temperature = float_of_real False (real_of_int (be_value (drop 2 resp)) / 1000),
                      variance = Finite 0\<rparr>]"
    using short by (auto simp: general after_exchange_def)
  have c2: "(fst (get_temperature_info flt flr fv now resp s) = Some OverflowError
              \<and> mcu_temperature_publisher (snd (get_temperature_info flt flr fv now resp s))
                  = mcu_temperature_publisher s)
            \<or> (fst (get_temperature_info flt flr fv now resp s) = None
              \<and> mcu_temperature_publisher (snd (get_temperature_info flt flr fv now resp s))
                  = mcu_temperature_publisher s @
                      [\<lparr>stamp = now,
                        temperature = float_of_real False (real_of_int (be_value (drop 2 resp)) / 1000),
                        variance = Finite 0\<rparr>])"
    using any by (auto simp: general after_exchange_def)
  have c3: "mcu_temperature_publisher (snd (get_temperature_info flt flr fv now [h0, h1, 91, 160] s))
             = mcu_temperature_publisher s @
                 [\<lparr>stamp = now, temperature = float_literal 23.456, variance = Finite 0\<rparr>]"
    by (simp add: scenario be_value_23456 py_truediv_23456 after_exchange_def)
  show ?thesis
    using c1 c2 c3 by blast
qed

theorem get_temperature_info_reports_witness:
  "fst (get_temperature_info (\<lambda>k. 2) (\<lambda>k. 4) (\<lambda>k. 3) 7 [4, 3, 91, 160] fresh_node) = None
   \<and> mcu_temperature_publisher
        (snd (get_temperature_info (\<lambda>k. 2) (\<lambda>k. 4) (\<lambda>k. 3) 7 [4, 3, 91, 160] fresh_node))
       = [\<lparr>stamp = 7, temperature = float_literal 23.456, variance = Finite 0\<rparr>]
   \<and> float_literal 23.456 = Finite (6602277053725147 / 2 ^ 48)"
proof -
  have h: "\<forall>x \<in> set (drop 2 [4, 3, 91, 160 :: int]). 0 \<le> x \<and> x \<le> 255"
    by simp
  have v: "float_of_real False (real_of_int (be_value [91, 160]) / 1000) = float_literal 23.456"
    by (simp add: be_value_23456 float_literal_def)
  have "fst (get_temperature_info (\<lambda>k. 2) (\<lambda>k. 4) (\<lambda>k. 3) 7 [4, 3, 91, 160] fresh_node) = None
   \<and> mcu_temperature_publisher
        (snd (get_temperature_info (\<lambda>k. 2) (\<lambda>k. 4) (\<lambda>k. 3) 7 [4, 3, 91, 160] fresh_node))
       = [\<lparr>stamp = 7, temperature = float_literal 23.456, variance = Finite 0\<rparr>]"
    using get_temperature_info_reports
      [OF h, where flt = "\<lambda>k. 2" and flr = "\<lambda>k. 4" and fv = "\<lambda>k. 3" and now = 7
         and s = fresh_node]
    by (simp add: fresh_node_def v)
  then show ?thesis
    using float_literal_23456 by blast
qed

text \<open>The division overflows on 130 bytes of \<open>0xFF\<close> after the header.\<close>

lemma be_value_Nil: "be_value [] = 0"
  by (simp add: be_value_def)

lemma be_value_replicate_255: "be_value (replicate n 255) = 256 ^ n - 1"
  by (induction n) (simp_all add: be_value_Nil be_value_Cons)

lemma get_temperature_info_overflow:
  "fst (get_temperature_info flt flr fv now ([4, 3] @ replicate 130 255) s) = Some OverflowError"
proof -
  have bytes: "list_all is_byte (drop 2 ([4, 3] @ replicate 130 255))"
    by (simp add: is_byte_def list_all_iff)
  have "py_truediv (256 ^ 130 - 1) 1000 = Inl OverflowError"
    by (rule py_truediv_overflow) simp_all
  then show ?thesis
    using get_temperature_info_bytes [OF bytes, of flt flr fv now s]
    by (simp add: be_value_replicate_255)
qed

subsection \<open>The voltage poll\<close>

lemma get_adc_info_bytes:
  assumes "list_all is_byte (drop 3 resp)"
  shows "get_adc_info flt flr fv resp s =
           (case py_truediv (be_value (drop 3 resp)) 4096 of
              Inl e \<Rightarrow> (Some e, after_exchange (flt ADC) [flt ADC, fv ADC] (flr ADC) s)
            | Inr ratio \<Rightarrow>
                (None, (after_exchange (flt ADC) [flt ADC, fv ADC] (flr ADC) s)
                   \<lparr>stdout := stdout s @
                      [VoltageLine (py_float_mul ratio (float_literal 3.3))]\<rparr>))"
  using convert_bytes_be_value [OF assms]
  by (simp add: get_adc_info_def send_then_read after_exchange_def split: sum.splits)

text \<open>
  Claim C5.  For every Adc response, the reported voltage is the big-endian value of the
  trailing bytes (those after the first three) divided by 4096 and multiplied by 3.3, in
  Python's float arithmetic: the true division rounded to a float, times the float
  \<open>3.3\<close>.  With at most 129 trailing bytes the poll ends without an exception and prints
  that voltage; for a longer response it either does the same or ends with the
  \<open>OverflowError\<close> of the division and prints nothing.  A raw count of 2048
  (bytes \<open>0x08, 0x00\<close>) is reported as the float \<open>1.65\<close>.
\<close>

theorem get_adc_info_reports:
  assumes "\<forall>x \<in> set (drop 3 resp). 0 \<le> x \<and> x \<le> 255"
  shows "(length (drop 3 resp) \<le> 129 \<longrightarrow>
            fst (get_adc_info flt flr fv resp s) = None
            \<and> stdout (snd (get_adc_info flt flr fv resp s))
                = stdout s @
                    [VoltageLine
                       (py_float_mul
                          (float_of_real False (real_of_int (be_value (drop 3 resp)) / 4096))
                          (float_literal 3.3))])
         \<and> ((fst (get_adc_info flt flr fv resp s) = Some OverflowError
              \<and> stdout (snd (get_adc_info flt flr fv resp s)) = stdout s)
            \<or> (fst (get_adc_info flt flr fv resp s) = None
              \<and> stdout (snd (get_adc_info flt flr fv resp s))
                  = stdout s @
                      [VoltageLine
                         (py_float_mul
                            (float_of_real False (real_of_int (be_value (drop 3 resp)) / 4096))
                            (float_literal 3.3))]))
         \<and> stdout (snd (get_adc_info flt flr fv [h0, h1, h2, 8, 0] s))
             = stdout s @ [VoltageLine (float_literal 1.65)]"
proof -
  have bytes: "list_all is_byte (drop 3 resp)"
    using assms by (simp add: list_all_iff is_byte_def)
  note general = get_adc_info_bytes [OF bytes, of flt flr fv s]
  have short: "py_truediv (be_value (drop 3 resp)) 4096
                 = Inr (float_of_real False (real_of_int (be_value (drop 3 resp)) / 4096))"
    if "length (drop 3 resp) \<le> 129"
    using py_truediv_129 [OF bytes that, of 4096] by simp
  have "0 \<le> be_value (drop 3 resp)"
    using be_value_bounds [OF bytes] by simp
  then have any: "py_truediv (be_value (drop 3 resp)) 4096 = Inl OverflowError
                  \<or> py_truediv (be_value (drop 3 resp)) 4096
                      = Inr (float_of_real False (real_of_int (be_value (drop 3 resp)) / 4096))"
    using py_truediv_cases [of "be_value (drop 3 resp)" 4096] by simp
  have "list_all is_byte (drop 3 [h0, h1, h2, 8, 0])"
    by (simp add: is_byte_def)
  note scenario = get_adc_info_bytes [OF this, of flt flr fv s]
  have c1: "length (drop 3 resp) \<le> 129 \<longrightarrow>
            fst (get_adc_info flt flr fv resp s) = None
            \<and> stdout (snd (get_adc_info flt flr fv resp s))
                = stdout s @
                    [VoltageLine
                       (py_float_mul
                          (float_of_real False (real_of_int (be_value (drop 3 resp)) / 4096))
                          (float_literal 3.3))]"
    using short by (auto simp: general after_exchange_def)
  have c2: "(fst (get_adc_info flt flr fv resp s) = Some OverflowError
              \<and> stdout (snd (get_adc_info flt flr fv resp s)) = stdout s)
            \<or> (fst (get_adc_info flt flr fv resp s) = None
              \<and> stdout (snd (get_adc_info flt flr fv resp s))
                  = stdout s @
                      [VoltageLine
                         (py_float_mul
                            (float_of_real False (real_of_int (be_value (drop 3 resp)) / 4096))
                            (float_literal 3.3))])"
    using any by (auto simp: general after_exchange_def)
  have c3: "stdout (snd (get_adc_info flt flr fv [h0, h1, h2, 8, 0] s))
             = stdout s @ [VoltageLine (float_literal 1.65)]"
    by (simp add: scenario be_value_2048 py_truediv_2048 voltage_2048 after_exchange_def)
  show ?thesis
    using c1 c2 c3 by blast
qed

theorem get_adc_info_reports_witness:
  "fst (get_adc_info (\<lambda>k. 2) (\<lambda>k. 5) (\<lambda>k. 2) [5, 2, 0, 8, 0] fresh_node) = None
   \<and> stdout (snd (get_adc_info (\<lambda>k. 2) (\<lambda>k. 5) (\<lambda>k. 2) [5, 2, 0, 8, 0] fresh_node))
       = [VoltageLine (float_literal 1.65)]
   \<and> float_literal 1.65 = Finite (3715469692580659 / 2 ^ 51)"
proof -
  have h: "\<forall>x \<in> set (drop 3 [5, 2, 0, 8, 0 :: int]). 0 \<le> x \<and> x \<le> 255"
    by simp
  have v: "py_float_mul (float_of_real False (real_of_int (be_value [8, 0]) / 4096))
             (float_literal 3.3) = float_literal 1.65"
    using float_half voltage_2048 by (simp add: be_value_2048)
  have "fst (get_adc_info (\<lambda>k. 2) (\<lambda>k. 5) (\<lambda>k. 2) [5, 2, 0, 8, 0] fresh_node) = None
   \<and> stdout (snd (get_adc_info (\<lambda>k. 2) (\<lambda>k. 5) (\<lambda>k. 2) [5, 2, 0, 8, 0] fresh_node))
       = [VoltageLine (float_literal 1.65)]"
    using get_adc_info_reports
      [OF h, where flt = "\<lambda>k. 2" and flr = "\<lambda>k. 5" and fv = "\<lambda>k. 2" and s = fresh_node
         and ?h0.0 = 5 and ?h1.0 = 2 and ?h2.0 = 0]
      v
    by (simp add: fresh_node_def)
  then show ?thesis
    using float_literal_165 by blast
qed

text \<open>
  The rounding is that of the float arithmetic: a raw count of 3 is reported as the
  float that prints as \<open>0.0024169921874999997\<close>.
\<close>

lemma voltage_3:
  "py_float_mul (float_of_real False (3 / 4096)) (float_literal 3.3)
     = Finite (1393301134717747 / 2 ^ 59)"
  by (simp add: float_literal_33) (simp add: float_eval)

subsection \<open>The version check\<close>

lemma get_hhc_info_cases:
  "get_hhc_info flt flr info ver check resp s =
     (let s2 = after_exchange (flt INFO) info (flr INFO) s
      in case check resp of
        Inr _ \<Rightarrow> (None, log_msg LogInfo (stable_text ver) s2)
      | Inl (IncompatibleHexapodProtocolVersionError txt) \<Rightarrow> (None, log_msg LogError txt s2)
      | Inl (MalformedHexapodInfoFrameError txt) \<Rightarrow> (None, log_msg LogError txt s2)
      | Inl (OldHexapodProtocolVersionWarning txt) \<Rightarrow> (None, log_msg LogWarning txt s2)
      | Inl (NewHexapodProtocolVersionWarning txt) \<Rightarrow> (None, log_msg LogWarning txt s2)
      | Inl e \<Rightarrow> (Some e, s2))"
  by (simp add: get_hhc_info_def send_then_read Let_def)

text \<open>
  Claim C8.  For every INFO response, whatever \<open>check_info_frame\<close> is: when the check
  returns or raises one of the four protocol exceptions, \<open>get_hhc_info\<close> ends without an
  exception and has logged exactly one message: the stable-connection text at level
  info, the text of a malformed-frame or incompatible-version error at level error, the
  text of an old-version or new-version warning at level warning.
\<close>

theorem get_hhc_info_never_propagates:
  assumes "is_protocol_outcome (check resp)"
  shows "fst (get_hhc_info flt flr info ver check resp s) = None
   \<and> (\<exists>entry. logger (snd (get_hhc_info flt flr info ver check resp s)) = logger s @ [entry])
   \<and> (check resp = Inr () \<longrightarrow>
        logger (snd (get_hhc_info flt flr info ver check resp s))
          = logger s @ [(LogInfo, stable_text ver)])
   \<and> (\<forall>txt. check resp = Inl (MalformedHexapodInfoFrameError txt) \<longrightarrow>
        logger (snd (get_hhc_info flt flr info ver check resp s)) = logger s @ [(LogError, txt)])
   \<and> (\<forall>txt. check resp = Inl (IncompatibleHexapodProtocolVersionError txt) \<longrightarrow>
        logger (snd (get_hhc_info flt flr info ver check resp s)) = logger s @ [(LogError, txt)])
   \<and> (\<forall>txt. check resp = Inl (OldHexapodProtocolVersionWarning txt) \<longrightarrow>
        logger (snd (get_hhc_info flt flr info ver check resp s)) = logger s @ [(LogWarning, txt)])
   \<and> (\<forall>txt. check resp = Inl (NewHexapodProtocolVersionWarning txt) \<longrightarrow>
        logger (snd (get_hhc_info flt flr info ver check resp s)) = logger s @ [(LogWarning, txt)])"
  using assms
  by (simp add: get_hhc_info_cases Let_def is_protocol_outcome_def log_msg_def after_exchange_def
           split: sum.splits py_error.splits)

theorem get_hhc_info_never_propagates_witness:
  "fst (get_hhc_info (\<lambda>k. 2) (\<lambda>k. 4) [2, 1] ''1.0''
          (\<lambda>data. Inl (MalformedHexapodInfoFrameError ''bad frame'')) [0, 0, 0, 0] fresh_node) = None
   \<and> logger (snd (get_hhc_info (\<lambda>k. 2) (\<lambda>k. 4) [2, 1] ''1.0''
          (\<lambda>data. Inl (MalformedHexapodInfoFrameError ''bad frame'')) [0, 0, 0, 0] fresh_node))
       = [(LogError, ''bad frame'')]"
proof -
  have h: "is_protocol_outcome
             ((\<lambda>data. Inl (MalformedHexapodInfoFrameError ''bad frame'')) [0, 0, 0, 0 :: int])"
    by (simp add: is_protocol_outcome_def)
  show ?thesis
    using h get_hhc_info_never_propagates
      [where check = "\<lambda>data. Inl (MalformedHexapodInfoFrameError ''bad frame'')"
         and resp = "[0, 0, 0, 0]" and flt = "\<lambda>k. 2" and flr = "\<lambda>k. 4" and info = "[2, 1]"
         and ver = "''1.0''" and s = fresh_node]
    by (simp add: fresh_node_def)
qed

section \<open>The order of the bus transactions\<close>

lemma get_hhc_info_spi:
  "spi (snd (get_hhc_info flt flr info ver check resp s))
     = spi s @ [Write [flt INFO], Write info, Read (flr INFO)]"
  by (simp add: get_hhc_info_cases Let_def log_msg_def after_exchange_def
           split: sum.splits py_error.splits)

lemma get_adc_info_spi:
  "spi (snd (get_adc_info flt flr fv resp s))
     = spi s @ [Write [flt ADC], Write [flt ADC, fv ADC], Read (flr ADC)]"
  by (simp add: get_adc_info_def send_then_read after_exchange_def split: sum.splits)

lemma get_temperature_info_spi:
  "spi (snd (get_temperature_info flt flr fv now resp s))
     = spi s @ [Write [flt TEMPERATURE], Write [flt TEMPERATURE, fv TEMPERATURE],
                Read (flr TEMPERATURE)]"
  by (simp add: get_temperature_info_def send_then_read after_exchange_def split: sum.splits)

lemma leg_frame_body_spi:
  "(case encode_leg_frame split spec_one_leg_frame frame of
      Inl e \<Rightarrow> spi (snd (leg_frame_body split spec_one_leg_frame flt frame s)) = spi s
    | Inr message2 \<Rightarrow>
        spi (snd (leg_frame_body split spec_one_leg_frame flt frame s))
          = spi s @ [Write [flt ONE_LEG], Write message2]
        \<and> int (length message2) = 10)"
  by (auto simp: leg_frame_body_raises leg_frame_body_sends encode_spec_length split: sum.splits)

text \<open>
  Claim C3.  Every exchange first writes the one-byte length announcement, equal to the
  transmit length of the frame kind, then the payload, whose byte count is the announced
  length, and then, for Info, Adc and Temperature, reads the receive length of the frame
  kind; nothing else is written or read in between.  \<open>_send_data\<close> writes the announcement
  and then the payload for any arguments; the four callers pass the transmit length of
  their frame kind, and a leg frame that is not encoded leaves the bus untouched.
\<close>

theorem exchange_order:
  "spi (send_data nbytes payload s) = spi s @ [Write [nbytes], Write payload]
   \<and> spi (snd (get_hhc_info (spec_FRAME_LENGTHS_TRANSMIT info) flr info ver check resp s))
       = spi s @ [Write [spec_FRAME_LENGTHS_TRANSMIT info INFO], Write info, Read (flr INFO)]
   \<and> int (length info) = spec_FRAME_LENGTHS_TRANSMIT info INFO
   \<and> spi (snd (get_adc_info (spec_FRAME_LENGTHS_TRANSMIT info) flr fv resp s))
       = spi s @ [Write [spec_FRAME_LENGTHS_TRANSMIT info ADC],
                  Write [spec_FRAME_LENGTHS_TRANSMIT info ADC, fv ADC], Read (flr ADC)]
   \<and> int (length [spec_FRAME_LENGTHS_TRANSMIT info ADC, fv ADC])
       = spec_FRAME_LENGTHS_TRANSMIT info ADC
   \<and> spi (snd (get_temperature_info (spec_FRAME_LENGTHS_TRANSMIT info) flr fv now resp s))
       = spi s @ [Write [spec_FRAME_LENGTHS_TRANSMIT info TEMPERATURE],
                  Write [spec_FRAME_LENGTHS_TRANSMIT info TEMPERATURE, fv TEMPERATURE],
                  Read (flr TEMPERATURE)]
   \<and> int (length [spec_FRAME_LENGTHS_TRANSMIT info TEMPERATURE, fv TEMPERATURE])
       = spec_FRAME_LENGTHS_TRANSMIT info TEMPERATURE
   \<and> (case encode_leg_frame split spec_one_leg_frame frame of
        Inl e \<Rightarrow>
          spi (snd (leg_frame_body split spec_one_leg_frame (spec_FRAME_LENGTHS_TRANSMIT info)
                      frame s)) = spi s
      | Inr message2 \<Rightarrow>
          spi (snd (leg_frame_body split spec_one_leg_frame (spec_FRAME_LENGTHS_TRANSMIT info)
                      frame s))
            = spi s @ [Write [spec_FRAME_LENGTHS_TRANSMIT info ONE_LEG], Write message2]
          \<and> int (length message2) = spec_FRAME_LENGTHS_TRANSMIT info ONE_LEG)"
proof -
  have one_leg: "spec_FRAME_LENGTHS_TRANSMIT info ONE_LEG = 10"
    and two: "spec_FRAME_LENGTHS_TRANSMIT info ADC = 2"
             "spec_FRAME_LENGTHS_TRANSMIT info TEMPERATURE = 2"
    and inf: "spec_FRAME_LENGTHS_TRANSMIT info INFO = int (length info)"
    by (simp_all add: spec_FRAME_LENGTHS_TRANSMIT_def)
  have leg: "(case encode_leg_frame split spec_one_leg_frame frame of
        Inl e \<Rightarrow>
          spi (snd (leg_frame_body split spec_one_leg_frame (spec_FRAME_LENGTHS_TRANSMIT info)
                      frame s)) = spi s
      | Inr message2 \<Rightarrow>
          spi (snd (leg_frame_body split spec_one_leg_frame (spec_FRAME_LENGTHS_TRANSMIT info)
                      frame s))
            = spi s @ [Write [spec_FRAME_LENGTHS_TRANSMIT info ONE_LEG], Write message2]
          \<and> int (length message2) = spec_FRAME_LENGTHS_TRANSMIT info ONE_LEG)"
    using leg_frame_body_spi
      [where split = split and frame = frame and flt = "spec_FRAME_LENGTHS_TRANSMIT info" and s = s]
    by (simp add: one_leg split: sum.splits)
  have send: "spi (send_data nbytes payload s) = spi s @ [Write [nbytes], Write payload]"
    by (simp add: send_data_def writebytes2_def)
  show ?thesis
    using leg send by (simp add: get_hhc_info_spi get_adc_info_spi get_temperature_info_spi two inf)
qed

end
